theory Spec2Isabelle
  imports Main "HOL-Library.AList" "HOL-Library.Extended_Nat"
begin

section \<open>Data model\<close>

text \<open>
  Exceptions of the Python source are values: \<open>ValueError\<close> is raised by the puzzle
  constructor and by the constraint library, \<open>TypeError\<close> is what unpacking
  \<^verbatim>\<open>category, position = None\<close> raises in \<^verbatim>\<open>_backtrack\<close>.
\<close>

datatype error = ValueError | TypeError

text \<open>
  Python dictionaries keep insertion order, and the constraint library scans
  \<^verbatim>\<open>assignment[category].items()\<close> in that order, so an assignment
  \<^verbatim>\<open>Dict[str, Dict[int, str]]\<close> is a nested association list. Lookup is
  \<^const>\<open>map_of\<close>, item assignment is \<^const>\<open>AList.update\<close> (replace in place, or append
  a new key at the end). Positions are Python integers.
\<close>

type_synonym assignment = "(string \<times> (int \<times> string) list) list"

text \<open>A constraint is a callable on an assignment; it returns a bool or raises.\<close>

type_synonym constraint = "assignment \<Rightarrow> error + bool"

record puzzle =
  num_positions :: int
  categories :: "(string \<times> string list) list"
  constraints :: "(constraint \<times> string) list"

section \<open>Constraint library (constraints.py)\<close>

text \<open>
  Every factory starts with the same scan:
  \<^verbatim>\<open>for pos, val in assignment[category].items(): if val == value: pos1 = pos; break\<close>.
  It finds the first position, in insertion order, that holds the value.
\<close>

fun position_of :: "(int \<times> string) list \<Rightarrow> string \<Rightarrow> int option" where
  "position_of [] v = None"
| "position_of ((pos, val) # items) v = (if val = v then Some pos else position_of items v)"

definition find_position :: "assignment \<Rightarrow> string \<Rightarrow> string \<Rightarrow> int option" where
  "find_position assignment category v =
     (case map_of assignment category of
        None \<Rightarrow> None
      | Some items \<Rightarrow> position_of items v)"

text \<open>
  The tail shared by the four-argument factories:
  \<^verbatim>\<open>if pos1 is not None and pos2 is not None: return <relation>\<close>, else \<^verbatim>\<open>return True\<close>.
\<close>

definition both_assigned :: "int option \<Rightarrow> int option \<Rightarrow> (int \<Rightarrow> int \<Rightarrow> bool) \<Rightarrow> error + bool" where
  "both_assigned pos1 pos2 rel =
     (case pos1 of
        None \<Rightarrow> Inr True
      | Some p1 \<Rightarrow> (case pos2 of None \<Rightarrow> Inr True | Some p2 \<Rightarrow> Inr (rel p1 p2)))"

definition same_position :: "string \<Rightarrow> string \<Rightarrow> string \<Rightarrow> string \<Rightarrow> constraint" where
  "same_position category1 value1 category2 value2 = (\<lambda>assignment.
     both_assigned (find_position assignment category1 value1)
                   (find_position assignment category2 value2)
                   (\<lambda>pos1 pos2. pos1 = pos2))"

definition adjacent :: "string \<Rightarrow> string \<Rightarrow> string \<Rightarrow> string \<Rightarrow> constraint" where
  "adjacent category1 value1 category2 value2 = (\<lambda>assignment.
     both_assigned (find_position assignment category1 value1)
                   (find_position assignment category2 value2)
                   (\<lambda>pos1 pos2. \<bar>pos1 - pos2\<bar> = 1))"

definition left_of :: "string \<Rightarrow> string \<Rightarrow> string \<Rightarrow> string \<Rightarrow> constraint" where
  "left_of category1 value1 category2 value2 = (\<lambda>assignment.
     both_assigned (find_position assignment category1 value1)
                   (find_position assignment category2 value2)
                   (\<lambda>pos1 pos2. pos1 < pos2))"

definition immediately_right_of :: "string \<Rightarrow> string \<Rightarrow> string \<Rightarrow> string \<Rightarrow> constraint" where
  "immediately_right_of category1 value1 category2 value2 = (\<lambda>assignment.
     both_assigned (find_position assignment category1 value1)
                   (find_position assignment category2 value2)
                   (\<lambda>pos1 pos2. pos1 = pos2 + 1))"

definition not_same_position :: "string \<Rightarrow> string \<Rightarrow> string \<Rightarrow> string \<Rightarrow> constraint" where
  "not_same_position category1 value1 category2 value2 = (\<lambda>assignment.
     both_assigned (find_position assignment category1 value1)
                   (find_position assignment category2 value2)
                   (\<lambda>pos1 pos2. pos1 \<noteq> pos2))"

text \<open>
  \<^verbatim>\<open>at_position\<close>: after the scan has not found the value, the source looks at what the
  target position holds and returns \<^verbatim>\<open>x != value or x == value\<close>.
\<close>

definition at_position :: "string \<Rightarrow> string \<Rightarrow> int \<Rightarrow> constraint" where
  "at_position category v position = (\<lambda>assignment.
     case map_of assignment category of
       None \<Rightarrow> Inr True
     | Some items \<Rightarrow>
         (case position_of items v of
            Some pos \<Rightarrow> Inr (pos = position)
          | None \<Rightarrow>
              (case map_of items position of
                 Some x \<Rightarrow> Inr (x \<noteq> v \<or> x = v)
               | None \<Rightarrow> Inr True)))"

text \<open>
  \<^verbatim>\<open>at_edge\<close>: the factory body only defines and returns the closure. The closure takes
  the number of positions from the assignment (\<^verbatim>\<open>max(assignment[category].keys()) + 1\<close>)
  and raises \<^verbatim>\<open>ValueError\<close> in the last branch of its \<^verbatim>\<open>if\<close> chain. \<^verbatim>\<open>max\<close> is only
  reached after the scan found the value, so the key list is not empty there.
\<close>

definition at_edge :: "string \<Rightarrow> string \<Rightarrow> string \<Rightarrow> constraint" where
  "at_edge category v edge = (\<lambda>assignment.
     case map_of assignment category of
       None \<Rightarrow> Inr True
     | Some items \<Rightarrow>
         (case position_of items v of
            None \<Rightarrow> Inr True
          | Some pos \<Rightarrow>
              (let n = Max (set (map fst items)) + 1 in
               if edge = ''first'' then Inr (pos = 0)
               else if edge = ''last'' then Inr (pos = n - 1)
               else if edge = ''either'' then Inr (pos = 0 \<or> pos = n - 1)
               else Inl ValueError)))"

text \<open>
  \<^verbatim>\<open>middle_position\<close> validates in the factory body, before the closure exists:
  \<^verbatim>\<open>if num_positions % 2 == 0: raise ValueError\<close>. Python's \<^verbatim>\<open>%\<close> and \<^verbatim>\<open>//\<close> on
  integers are floor division, as \<open>mod\<close> and \<open>div\<close> on \<^typ>\<open>int\<close>.
\<close>

definition middle_position :: "string \<Rightarrow> string \<Rightarrow> int \<Rightarrow> error + constraint" where
  "middle_position category v n =
     (if n mod 2 = 0 then Inl ValueError
      else Inr (\<lambda>assignment.
        case map_of assignment category of
          None \<Rightarrow> Inr True
        | Some items \<Rightarrow>
            (case position_of items v of
               Some pos \<Rightarrow> Inr (pos = n div 2)
             | None \<Rightarrow> Inr True)))"

definition one_of_positions :: "string \<Rightarrow> string \<Rightarrow> int list \<Rightarrow> constraint" where
  "one_of_positions category v positions = (\<lambda>assignment.
     case map_of assignment category of
       None \<Rightarrow> Inr True
     | Some items \<Rightarrow>
         (case position_of items v of
            Some pos \<Rightarrow> Inr (pos \<in> set positions)
          | None \<Rightarrow> Inr True))"

section \<open>Puzzle construction (zebra\_solver.py)\<close>

text \<open>
  \<^verbatim>\<open>ZebraPuzzle.__init__\<close>: the loop over \<^verbatim>\<open>categories.items()\<close> raises at the first
  category whose list length is not \<^verbatim>\<open>num_positions\<close>.
\<close>

definition ZebraPuzzle :: "int \<Rightarrow> (string \<times> string list) list \<Rightarrow> error + puzzle" where
  "ZebraPuzzle n cats =
     (if list_ex (\<lambda>(category, vals). int (length vals) \<noteq> n) cats
      then Inl ValueError
      else Inr \<lparr>num_positions = n, categories = cats, constraints = []\<rparr>)"

definition add_constraint :: "puzzle \<Rightarrow> constraint \<Rightarrow> string \<Rightarrow> puzzle" where
  "add_constraint P constraint_func description =
     P\<lparr>constraints := constraints P @ [(constraint_func, description)]\<rparr>"

section \<open>Solving engine (zebra\_solver.py)\<close>

text \<open>
  \<^verbatim>\<open>range(num_positions)\<close>; it is empty when the bound is not positive.
\<close>

definition py_range :: "int \<Rightarrow> int list" where
  "py_range n = [0..n - 1]"

text \<open>
  A domain map \<^verbatim>\<open>Dict[str, Dict[int, Set[str]]]\<close> is built in \<^verbatim>\<open>solve\<close> with the
  puzzle's categories as keys, in declaration order, each holding the positions
  \<^verbatim>\<open>range(num_positions)\<close> in ascending order. \<^verbatim>\<open>_update_domains\<close> and
  \<^verbatim>\<open>_propagate_constraints\<close> replace and shrink the sets but never add or delete a key,
  so a domain map is represented by the function from category and position to the
  candidate set, and \<^verbatim>\<open>for category in domains\<close>, \<^verbatim>\<open>for position in domains[category]\<close>
  run over the puzzle's categories and \<open>py_range\<close>. The value of the function outside
  these keys is never read.
\<close>

type_synonym domains = "string \<Rightarrow> int \<Rightarrow> string set"

text \<open>
  \<^verbatim>\<open>list(domains[category][position])\<close> enumerates a set of strings. Python leaves the
  order open (CPython derives it from the string hashes, which are salted per process),
  so the enumeration is a parameter of the search.
\<close>

type_synonym set_iteration = "string set \<Rightarrow> string list"

definition initial_domains :: "puzzle \<Rightarrow> domains" where
  "initial_domains P = (\<lambda>category pos.
     case map_of (categories P) category of
       Some vals \<Rightarrow> set vals
     | None \<Rightarrow> {})"

definition is_assigned :: "assignment \<Rightarrow> string \<Rightarrow> int \<Rightarrow> bool" where
  "is_assigned assignment category position =
     (case map_of assignment category of
        None \<Rightarrow> False
      | Some items \<Rightarrow> map_of items position \<noteq> None)"

definition is_complete :: "puzzle \<Rightarrow> assignment \<Rightarrow> bool" where
  "is_complete P assignment =
     list_all (\<lambda>category.
        case map_of assignment category of
          None \<Rightarrow> False
        | Some items \<Rightarrow> int (length items) = num_positions P)
       (map fst (categories P))"

text \<open>
  \<^verbatim>\<open>_select_unassigned_variable\<close>: \<^verbatim>\<open>min_remaining\<close> starts at \<^verbatim>\<open>float('inf')\<close> and
  \<^verbatim>\<open>best_var\<close> at \<^verbatim>\<open>None\<close>; a strictly smaller domain replaces the current best.
\<close>

definition select_step :: "assignment \<Rightarrow> domains \<Rightarrow> string \<Rightarrow> int \<Rightarrow>
    enat \<times> (string \<times> int) option \<Rightarrow> enat \<times> (string \<times> int) option" where
  "select_step assignment d category position = (\<lambda>(min_remaining, best_var).
     if is_assigned assignment category position then (min_remaining, best_var)
     else (let remaining = enat (card (d category position)) in
           if remaining < min_remaining then (remaining, Some (category, position))
           else (min_remaining, best_var)))"

definition select_unassigned_variable ::
    "puzzle \<Rightarrow> assignment \<Rightarrow> domains \<Rightarrow> (string \<times> int) option" where
  "select_unassigned_variable P assignment d =
     snd (fold (\<lambda>category. fold (select_step assignment d category)
                              (py_range (num_positions P)))
               (map fst (categories P)) (\<infinity>, None))"

text \<open>\<^verbatim>\<open>_is_consistent\<close>: stops at the first constraint that is false, or that raises.\<close>

fun all_constraints :: "(constraint \<times> string) list \<Rightarrow> assignment \<Rightarrow> error + bool" where
  "all_constraints [] assignment = Inr True"
| "all_constraints ((func, description) # cs) assignment =
     (case func assignment of
        Inl e \<Rightarrow> Inl e
      | Inr ok \<Rightarrow> if \<not> ok then Inr False else all_constraints cs assignment)"

definition is_consistent :: "puzzle \<Rightarrow> assignment \<Rightarrow> error + bool" where
  "is_consistent P assignment = all_constraints (constraints P) assignment"

text \<open>
  \<^verbatim>\<open>_update_domains\<close> works on a deep copy, so the caller's map is untouched:
  \<^verbatim>\<open>new_domains[category][position] = {value}\<close>, then \<^verbatim>\<open>discard(value)\<close> at every
  other position of the category.
\<close>

definition update_domains :: "puzzle \<Rightarrow> domains \<Rightarrow> string \<Rightarrow> int \<Rightarrow> string \<Rightarrow> domains" where
  "update_domains P d category position v =
     fold (\<lambda>pos nd. if pos \<noteq> position
                      then nd(category := (nd category)(pos := nd category pos - {v}))
                      else nd)
          (py_range (num_positions P))
          (d(category := (d category)(position := {v})))"

text \<open>
  \<^verbatim>\<open>_propagate_constraints\<close>, one pass of the \<^verbatim>\<open>while changed\<close> loop. The state is the
  flag \<^verbatim>\<open>changed\<close> and the domain map, which the source mutates in place. The
  \<^verbatim>\<open>assignment\<close> argument of the source is never read and is left out.
\<close>

definition domain_wipeout :: "puzzle \<Rightarrow> domains \<Rightarrow> bool" where
  "domain_wipeout P d =
     list_ex (\<lambda>category. list_ex (\<lambda>position. card (d category position) = 0)
                                  (py_range (num_positions P)))
             (map fst (categories P))"

definition remove_step :: "string \<Rightarrow> int \<Rightarrow> string \<Rightarrow> int \<Rightarrow> bool \<times> domains \<Rightarrow> bool \<times> domains" where
  "remove_step category position v pos = (\<lambda>(changed, d).
     if pos \<noteq> position \<and> v \<in> d category pos
     then (True, d(category := (d category)(pos := d category pos - {v})))
     else (changed, d))"

definition singleton_step :: "puzzle \<Rightarrow> string \<Rightarrow> int \<Rightarrow> bool \<times> domains \<Rightarrow> bool \<times> domains" where
  "singleton_step P category position = (\<lambda>(changed, d).
     if card (d category position) = 1
     then fold (remove_step category position (the_elem (d category position)))
               (py_range (num_positions P)) (changed, d)
     else (changed, d))"

definition singleton_elimination :: "puzzle \<Rightarrow> bool \<times> domains \<Rightarrow> bool \<times> domains" where
  "singleton_elimination P =
     fold (\<lambda>category. fold (singleton_step P category) (py_range (num_positions P)))
          (map fst (categories P))"

text \<open>A \<^verbatim>\<open>for\<close> loop whose body may \<^verbatim>\<open>return None\<close>.\<close>

fun fold_option :: "('a \<Rightarrow> 's \<Rightarrow> 's option) \<Rightarrow> 'a list \<Rightarrow> 's \<Rightarrow> 's option" where
  "fold_option f [] s = Some s"
| "fold_option f (x # xs) s = (case f x s of None \<Rightarrow> None | Some s' \<Rightarrow> fold_option f xs s')"

definition unique_position_step ::
    "puzzle \<Rightarrow> string \<Rightarrow> string \<Rightarrow> bool \<times> domains \<Rightarrow> (bool \<times> domains) option" where
  "unique_position_step P category v = (\<lambda>(changed, d).
     case filter (\<lambda>pos. v \<in> d category pos) (py_range (num_positions P)) of
       [] \<Rightarrow> None
     | [pos] \<Rightarrow>
         if card (d category pos) > 1
         then Some (True, d(category := (d category)(pos := {v})))
         else Some (changed, d)
     | _ \<Rightarrow> Some (changed, d))"

definition unique_position_elimination ::
    "puzzle \<Rightarrow> bool \<times> domains \<Rightarrow> (bool \<times> domains) option" where
  "unique_position_elimination P =
     fold_option (\<lambda>(category, vals). fold_option (unique_position_step P category) vals)
                 (categories P)"

definition propagation_pass :: "puzzle \<Rightarrow> domains \<Rightarrow> (bool \<times> domains) option" where
  "propagation_pass P d =
     (if domain_wipeout P d then None
      else unique_position_elimination P (singleton_elimination P (False, d)))"

text \<open>The sum of the domain sizes: it drops in every pass that sets \<^verbatim>\<open>changed\<close>.\<close>

definition domain_size :: "puzzle \<Rightarrow> domains \<Rightarrow> nat" where
  "domain_size P d =
     (\<Sum>(c, p) \<in> set (map fst (categories P)) \<times> set (py_range (num_positions P)). card (d c p))"

text \<open>
  What a pass keeps true of its state, relative to the map \<open>d0\<close> it started from: sets
  only shrink, the flag is set exactly when something was removed.
\<close>

definition pass_inv :: "puzzle \<Rightarrow> domains \<Rightarrow> bool \<times> domains \<Rightarrow> bool" where
  "pass_inv P d0 s =
     ((\<forall>c p. snd s c p \<subseteq> d0 c p) \<and>
      (fst s \<longrightarrow> (\<exists>c \<in> set (map fst (categories P)). \<exists>p \<in> set (py_range (num_positions P)).
                    snd s c p \<subset> d0 c p)) \<and>
      (\<not> fst s \<longrightarrow> snd s = d0))"

lemma fold_invariant:
  "(\<And>x s. x \<in> set xs \<Longrightarrow> Q s \<Longrightarrow> Q (f x s)) \<Longrightarrow> Q s \<Longrightarrow> Q (fold f xs s)"
  by (induction xs arbitrary: s) auto

lemma fold_option_invariant:
  "(\<And>x s s'. x \<in> set xs \<Longrightarrow> Q s \<Longrightarrow> f x s = Some s' \<Longrightarrow> Q s') \<Longrightarrow> Q s \<Longrightarrow>
   fold_option f xs s = Some t \<Longrightarrow> Q t"
  by (induction xs arbitrary: s) (auto split: option.splits)

lemma nested_upd_apply:
  "(d(c := (d c)(p := S))) c' p' = (if c' = c \<and> p' = p then S else d c' p')"
  by simp

lemma pass_inv_shrink:
  assumes "pass_inv P d0 (ch, d)" "c \<in> set (map fst (categories P))"
    "p \<in> set (py_range (num_positions P))" "S \<subset> d c p"
  shows "pass_inv P d0 (True, d(c := (d c)(p := S)))"
proof -
  let ?d = "d(c := (d c)(p := S))"
  from assms(1) have sub: "d c' p' \<subseteq> d0 c' p'" for c' p'
    by (simp add: pass_inv_def)
  have "?d c' p' \<subseteq> d0 c' p'" for c' p'
  proof (cases "c' = c \<and> p' = p")
    case True
    then have "?d c' p' = S" by simp
    moreover from assms(4) sub [of c p] have "S \<subseteq> d0 c p" by blast
    ultimately show ?thesis using True by simp
  next
    case False
    then have "?d c' p' = d c' p'" by auto
    with sub [of c' p'] show ?thesis by simp
  qed
  moreover have "?d c p \<subset> d0 c p"
  proof -
    have "?d c p = S" by simp
    moreover from assms(4) sub [of c p] have "S \<subset> d0 c p" by blast
    ultimately show ?thesis by simp
  qed
  ultimately show ?thesis
    unfolding pass_inv_def fst_conv snd_conv
    using assms(2,3) by blast
qed

lemma pass_inv_remove_step:
  assumes "pass_inv P d0 s" "c \<in> set (map fst (categories P))"
    "pos \<in> set (py_range (num_positions P))"
  shows "pass_inv P d0 (remove_step c position v pos s)"
proof (cases s)
  case (Pair ch d)
  show ?thesis
  proof (cases "pos \<noteq> position \<and> v \<in> d c pos")
    case True
    then have "d c pos - {v} \<subset> d c pos" by auto
    from pass_inv_shrink [OF assms(1) [unfolded Pair] assms(2,3) this] True Pair
    show ?thesis by (simp add: remove_step_def)
  next
    case False
    with assms Pair show ?thesis by (auto simp: remove_step_def)
  qed
qed

lemma pass_inv_singleton_step:
  assumes "pass_inv P d0 s" "c \<in> set (map fst (categories P))"
  shows "pass_inv P d0 (singleton_step P c position s)"
proof (cases s)
  case (Pair ch d)
  have "pass_inv P d0 (fold (remove_step c position v) (py_range (num_positions P)) s)" for v
    by (rule fold_invariant [where Q = "pass_inv P d0"])
       (auto intro: pass_inv_remove_step assms)
  with assms Pair show ?thesis
    by (simp add: singleton_step_def)
qed

lemma pass_inv_singleton_elimination:
  assumes "pass_inv P d0 s"
  shows "pass_inv P d0 (singleton_elimination P s)"
proof -
  have inner: "pass_inv P d0 (fold (singleton_step P c) ps t)"
    if "c \<in> set (map fst (categories P))" "pass_inv P d0 t" for c ps t
    using that(2)
    by (rule fold_invariant [rotated]) (rule pass_inv_singleton_step [OF _ that(1)])
  show ?thesis
    unfolding singleton_elimination_def
    using assms by (rule fold_invariant [rotated]) (rule inner)
qed

lemma pass_inv_unique_position_step:
  assumes "pass_inv P d0 s" "c \<in> set (map fst (categories P))"
    "unique_position_step P c v s = Some s'"
  shows "pass_inv P d0 s'"
proof (cases s)
  case (Pair ch d)
  let ?pp = "filter (\<lambda>pos. v \<in> d c pos) (py_range (num_positions P))"
  from assms(3) Pair have r: "unique_position_step P c v (ch, d) = Some s'"
    by simp
  show ?thesis
  proof (cases ?pp)
    case Nil
    then have "unique_position_step P c v (ch, d) = None"
      by (simp add: unique_position_step_def)
    with r show ?thesis by simp
  next
    case (Cons pos rest)
    show ?thesis
    proof (cases "rest = [] \<and> card (d c pos) > 1")
      case True
      with Cons have pp: "?pp = [pos]" by simp
      then have "pos \<in> set ?pp" by simp
      then have mem: "pos \<in> set (py_range (num_positions P))" and v: "v \<in> d c pos"
        by simp_all
      from True have big: "card (d c pos) > 1" by (rule conjunct2)
      have "d c pos \<noteq> {v}"
      proof
        assume "d c pos = {v}"
        then have "card (d c pos) = card {v}" by (rule arg_cong)
        with big show False by simp
      qed
      with v have less: "{v} \<subset> d c pos" by blast
      from pp True have "unique_position_step P c v (ch, d) =
          Some (True, d(c := (d c)(pos := {v})))"
        by (simp add: unique_position_step_def)
      with r have "s' = (True, d(c := (d c)(pos := {v})))" by simp
      with pass_inv_shrink [OF assms(1) [unfolded Pair] assms(2) mem less]
      show ?thesis by simp
    next
      case False
      with Cons have "unique_position_step P c v (ch, d) = Some (ch, d)"
        by (cases rest) (simp_all add: unique_position_step_def)
      with r have "s' = s" by (simp add: Pair)
      with assms(1) show ?thesis by simp
    qed
  qed
qed

lemma pass_inv_unique_position_elimination:
  assumes "pass_inv P d0 s" "unique_position_elimination P s = Some t"
  shows "pass_inv P d0 t"
proof (rule fold_option_invariant [where Q = "pass_inv P d0", OF _ assms(1) assms(2) [unfolded unique_position_elimination_def]])
  fix x s s'
  assume x: "x \<in> set (categories P)" and s: "pass_inv P d0 s"
    and r: "(case x of (category, vals) \<Rightarrow> fold_option (unique_position_step P category) vals) s = Some s'"
  obtain c vals where xe: "x = (c, vals)" by (cases x)
  with x have c: "c \<in> set (map fst (categories P))" by force
  from r xe have "fold_option (unique_position_step P c) vals s = Some s'" by simp
  then show "pass_inv P d0 s'"
    by (rule fold_option_invariant [where Q = "pass_inv P d0", rotated 2])
       (auto intro: pass_inv_unique_position_step [OF _ c] s)
qed

lemma pass_inv_propagation_pass:
  assumes "propagation_pass P d = Some s"
  shows "pass_inv P d s"
proof -
  have "pass_inv P d (False, d)" by (simp add: pass_inv_def)
  then have "pass_inv P d (singleton_elimination P (False, d))"
    by (rule pass_inv_singleton_elimination)
  with assms show ?thesis
    by (auto simp: propagation_pass_def split: if_splits
        intro: pass_inv_unique_position_elimination)
qed

lemma no_wipeout_finite:
  assumes "\<not> domain_wipeout P d" "c \<in> set (map fst (categories P))"
    "p \<in> set (py_range (num_positions P))"
  shows "finite (d c p)" "d c p \<noteq> {}"
proof -
  from assms have "card (d c p) \<noteq> 0"
    by (auto simp: domain_wipeout_def list_ex_iff)
  then show "finite (d c p)" "d c p \<noteq> {}"
    by (auto intro: card_ge_0_finite)
qed

lemma domain_size_decreases:
  assumes "propagation_pass P d = Some (True, d')"
  shows "domain_size P d' < domain_size P d"
proof -
  let ?A = "set (map fst (categories P)) \<times> set (py_range (num_positions P))"
  from assms have nw: "\<not> domain_wipeout P d"
    by (auto simp: propagation_pass_def split: if_splits)
  from pass_inv_propagation_pass [OF assms]
  have sub: "\<And>c p. d' c p \<subseteq> d c p"
    and strict: "\<exists>c \<in> set (map fst (categories P)). \<exists>p \<in> set (py_range (num_positions P)). d' c p \<subset> d c p"
    by (auto simp: pass_inv_def)
  have le: "card (d' c p) \<le> card (d c p)"
    if "c \<in> set (map fst (categories P))" "p \<in> set (py_range (num_positions P))" for c p
    using sub no_wipeout_finite(1) [OF nw that] by (rule card_mono [rotated])
  have "(\<Sum>x \<in> ?A. card (d' (fst x) (snd x))) < (\<Sum>x \<in> ?A. card (d (fst x) (snd x)))"
  proof (rule sum_strict_mono_ex1)
    show "finite ?A" by simp
    show "\<forall>x \<in> ?A. card (d' (fst x) (snd x)) \<le> card (d (fst x) (snd x))"
      using le by (simp add: mem_Times_iff)
    from strict obtain c p where c: "c \<in> set (map fst (categories P))"
      and p: "p \<in> set (py_range (num_positions P))" and less: "d' c p \<subset> d c p" by blast
    from no_wipeout_finite(1) [OF nw c p] less have "card (d' c p) < card (d c p)"
      by (rule psubset_card_mono)
    with c p show "\<exists>x \<in> ?A. card (d' (fst x) (snd x)) < card (d (fst x) (snd x))"
      by (intro bexI [of _ "(c, p)"]) simp_all
  qed
  then show ?thesis
    by (simp add: domain_size_def case_prod_unfold)
qed

text \<open>
  The \<^verbatim>\<open>while changed\<close> loop; \<open>None\<close> is the source's \<^verbatim>\<open>return None\<close>, the
  unsatisfiable sentinel.
\<close>

function propagate_constraints :: "puzzle \<Rightarrow> domains \<Rightarrow> domains option" where
  "propagate_constraints P d =
     (case propagation_pass P d of
        None \<Rightarrow> None
      | Some (changed, d') \<Rightarrow> if changed then propagate_constraints P d' else Some d')"
  by pat_completeness auto
termination
  by (relation "measure (\<lambda>(P, d). domain_size P d)") (auto intro: domain_size_decreases)

text \<open>
  The tentative extension in \<^verbatim>\<open>_backtrack\<close>, made on a deep copy:
  \<^verbatim>\<open>if category not in new_assignment: new_assignment[category] = {}\<close>, then
  \<^verbatim>\<open>new_assignment[category][position] = value\<close>.
\<close>

definition assign :: "assignment \<Rightarrow> string \<Rightarrow> int \<Rightarrow> string \<Rightarrow> assignment" where
  "assign assignment category position v =
     (case map_of assignment category of
        None \<Rightarrow> AList.update category [(position, v)] assignment
      | Some items \<Rightarrow> AList.update category (AList.update position v items) assignment)"

text \<open>
  The \<^verbatim>\<open>for value in ...\<close> loop of \<^verbatim>\<open>_backtrack\<close>: the first candidate whose branch
  returns a result ends the loop, an exception ends it too, and \<^verbatim>\<open>return None\<close> follows
  the last candidate.
\<close>

fun try_each :: "('v \<Rightarrow> error + 'r option) \<Rightarrow> 'v list \<Rightarrow> error + 'r option" where
  "try_each f [] = Inr None"
| "try_each f (v # vs) =
     (case f v of
        Inl e \<Rightarrow> Inl e
      | Inr None \<Rightarrow> try_each f vs
      | Inr (Some r) \<Rightarrow> Inr (Some r))"

lemma try_each_cong [fundef_cong]:
  assumes "xs = ys" "\<And>x. x \<in> set ys \<Longrightarrow> f x = g x"
  shows "try_each f xs = try_each g ys"
proof -
  have "try_each f ys = try_each g ys"
    using assms(2)
  proof (induction ys)
    case Nil
    show ?case by simp
  next
    case (Cons y ys)
    have "f y = g y"
      by (rule Cons.prems) simp
    moreover have "try_each f ys = try_each g ys"
      by (rule Cons.IH) (rule Cons.prems, simp)
    ultimately show ?case by (simp split: sum.split option.split)
  qed
  with assms(1) show ?thesis by simp
qed

text \<open>The number of variables still to assign: it drops with every level of the search.\<close>

definition unassigned :: "puzzle \<Rightarrow> assignment \<Rightarrow> (string \<times> int) set" where
  "unassigned P assignment =
     {(c, p). c \<in> set (map fst (categories P)) \<and> p \<in> set (py_range (num_positions P)) \<and>
              \<not> is_assigned assignment c p}"

lemma is_assigned_assign:
  "is_assigned (assign a c p v) c' p' \<longleftrightarrow> is_assigned a c' p' \<or> (c' = c \<and> p' = p)"
  by (auto simp: is_assigned_def assign_def update_conv' split: option.splits)

definition select_inv :: "puzzle \<Rightarrow> assignment \<Rightarrow> enat \<times> (string \<times> int) option \<Rightarrow> bool" where
  "select_inv P a s =
     ((\<forall>x. snd s = Some x \<longrightarrow> x \<in> unassigned P a) \<and> (fst s \<noteq> \<infinity> \<longrightarrow> snd s \<noteq> None))"

lemma select_inv_step:
  assumes "select_inv P a s" "c \<in> set (map fst (categories P))"
    "p \<in> set (py_range (num_positions P))"
  shows "select_inv P a (select_step a d c p s)"
  using assms
  by (cases s) (auto simp: select_inv_def select_step_def unassigned_def Let_def)

lemma select_inv_fold:
  assumes "select_inv P a s"
  shows "select_inv P a
     (fold (\<lambda>category. fold (select_step a d category) (py_range (num_positions P)))
           (map fst (categories P)) s)"
proof -
  have inner: "select_inv P a (fold (select_step a d c) (py_range (num_positions P)) t)"
    if "c \<in> set (map fst (categories P))" "select_inv P a t" for c t
    using that(2)
    by (rule fold_invariant [rotated]) (rule select_inv_step [OF _ that(1)])
  show ?thesis
    using assms by (rule fold_invariant [rotated]) (rule inner)
qed

lemma select_unassigned_variable_sound:
  assumes "select_unassigned_variable P a d = Some (c, p)"
  shows "(c, p) \<in> unassigned P a"
proof -
  have "select_inv P a (\<infinity>, None)" by (simp add: select_inv_def)
  from select_inv_fold [OF this, of d] assms show ?thesis
    by (simp add: select_unassigned_variable_def select_inv_def)
qed

lemma unassigned_assign_less:
  assumes "(c, p) \<in> unassigned P a"
  shows "card (unassigned P (assign a c p v)) < card (unassigned P a)"
proof (rule psubset_card_mono)
  have "unassigned P a \<subseteq> set (map fst (categories P)) \<times> set (py_range (num_positions P))"
    by (auto simp: unassigned_def)
  then show "finite (unassigned P a)"
    by (rule finite_subset) simp
  from assms show "unassigned P (assign a c p v) \<subset> unassigned P a"
    by (auto simp: unassigned_def is_assigned_assign)
qed

text \<open>
  \<^verbatim>\<open>_backtrack\<close>. Unpacking \<^verbatim>\<open>category, position = None\<close> raises \<^verbatim>\<open>TypeError\<close>; an
  exception of a constraint leaves the search at once.
\<close>

function backtrack ::
    "set_iteration \<Rightarrow> puzzle \<Rightarrow> assignment \<Rightarrow> domains \<Rightarrow> error + assignment option" where
  "backtrack iter P assignment d =
     (if is_complete P assignment then Inr (Some assignment)
      else case select_unassigned_variable P assignment d of
        None \<Rightarrow> Inl TypeError
      | Some (category, position) \<Rightarrow>
          try_each (\<lambda>v.
             let new_assignment = assign assignment category position v in
             case is_consistent P new_assignment of
               Inl e \<Rightarrow> Inl e
             | Inr ok \<Rightarrow>
                 if ok then
                   (case propagate_constraints P (update_domains P d category position v) of
                      None \<Rightarrow> Inr None
                    | Some new_domains \<Rightarrow> backtrack iter P new_assignment new_domains)
                 else Inr None)
            (iter (d category position)))"
  by pat_completeness auto
termination
  by (relation "measure (\<lambda>(iter, P, a, d). card (unassigned P a))")
     (auto intro: unassigned_assign_less select_unassigned_variable_sound)

text \<open>\<^verbatim>\<open>solve\<close>: \<open>Inr None\<close> is the source's \<^verbatim>\<open>return None\<close>, "no solution".\<close>

definition solve :: "set_iteration \<Rightarrow> puzzle \<Rightarrow> error + assignment option" where
  "solve iter P =
     (case propagate_constraints P (initial_domains P) of
        None \<Rightarrow> Inr None
      | Some d \<Rightarrow> backtrack iter P [] d)"

text \<open>
  A value is absent from a partial assignment when its category is missing or no position
  of that category holds it.
\<close>

definition absent :: "assignment \<Rightarrow> string \<Rightarrow> string \<Rightarrow> bool" where
  "absent assignment category v =
     (case map_of assignment category of
        None \<Rightarrow> True
      | Some items \<Rightarrow> v \<notin> snd ` set items)"

section \<open>Properties of the constraint library\<close>

lemma position_of_None_iff: "position_of items v = None \<longleftrightarrow> v \<notin> snd ` set items"
  by (induction items v rule: position_of.induct) auto

lemma position_of_SomeD: "position_of items v = Some pos \<Longrightarrow> (pos, v) \<in> set items"
  by (induction items v rule: position_of.induct) (auto split: if_splits)

lemma absent_find_position: "absent a c v \<Longrightarrow> find_position a c v = None"
  by (auto simp: absent_def find_position_def position_of_None_iff split: option.splits)

lemma both_assigned_None: "p1 = None \<or> p2 = None \<Longrightarrow> both_assigned p1 p2 rel = Inr True"
  by (auto simp: both_assigned_def split: option.splits)

text \<open>
  Claim C3. A predicate built by any of the nine factories returns true on every partial
  assignment from which a value it refers to is absent: for the four-argument factories
  when at least one of the two values is absent, for the others when their one value is.
  \<^verbatim>\<open>middle_position\<close> yields a predicate only for an odd number of positions.
\<close>

theorem open_world_vacuous_truth:
  "(absent a c1 v1 \<or> absent a c2 v2 \<longrightarrow>
      same_position c1 v1 c2 v2 a = Inr True \<and>
      adjacent c1 v1 c2 v2 a = Inr True \<and>
      left_of c1 v1 c2 v2 a = Inr True \<and>
      immediately_right_of c1 v1 c2 v2 a = Inr True \<and>
      not_same_position c1 v1 c2 v2 a = Inr True) \<and>
   (absent a c v \<longrightarrow>
      at_position c v p a = Inr True \<and>
      at_edge c v e a = Inr True \<and>
      one_of_positions c v ps a = Inr True \<and>
      (\<forall>f. middle_position c v n = Inr f \<longrightarrow> f a = Inr True))"
proof (intro conjI impI)
  assume "absent a c1 v1 \<or> absent a c2 v2"
  then have n: "find_position a c1 v1 = None \<or> find_position a c2 v2 = None"
    by (auto dest: absent_find_position)
  show "same_position c1 v1 c2 v2 a = Inr True"
    unfolding same_position_def by (rule both_assigned_None [OF n])
  show "adjacent c1 v1 c2 v2 a = Inr True"
    unfolding adjacent_def by (rule both_assigned_None [OF n])
  show "left_of c1 v1 c2 v2 a = Inr True"
    unfolding left_of_def by (rule both_assigned_None [OF n])
  show "immediately_right_of c1 v1 c2 v2 a = Inr True"
    unfolding immediately_right_of_def by (rule both_assigned_None [OF n])
  show "not_same_position c1 v1 c2 v2 a = Inr True"
    unfolding not_same_position_def by (rule both_assigned_None [OF n])
next
  assume ab: "absent a c v"
  then have k: "map_of a c = None \<or> (\<exists>items. map_of a c = Some items \<and> position_of items v = None)"
    by (auto simp: absent_def position_of_None_iff split: option.splits)
  from k show "at_position c v p a = Inr True"
    by (auto simp: at_position_def split: option.splits)
  from k show "at_edge c v e a = Inr True"
    by (auto simp: at_edge_def)
  from k show "one_of_positions c v ps a = Inr True"
    by (auto simp: one_of_positions_def)
  from k show "\<forall>f. middle_position c v n = Inr f \<longrightarrow> f a = Inr True"
    by (auto simp: middle_position_def split: if_splits)
qed

text \<open>
  On the assignment \<^verbatim>\<open>{'color': {0: 'red'}}\<close> the value green and the category pet are
  absent.
\<close>

theorem open_world_vacuous_truth_witness:
  "absent [(''color'', [(0, ''red'')])] ''color'' ''green'' \<and>
   absent [(''color'', [(0, ''red'')])] ''pet'' ''dog'' \<and>
   same_position ''color'' ''red'' ''pet'' ''dog'' [(''color'', [(0, ''red'')])] = Inr True \<and>
   adjacent ''color'' ''red'' ''pet'' ''dog'' [(''color'', [(0, ''red'')])] = Inr True \<and>
   left_of ''color'' ''red'' ''pet'' ''dog'' [(''color'', [(0, ''red'')])] = Inr True \<and>
   immediately_right_of ''color'' ''red'' ''pet'' ''dog'' [(''color'', [(0, ''red'')])] = Inr True \<and>
   not_same_position ''color'' ''red'' ''pet'' ''dog'' [(''color'', [(0, ''red'')])] = Inr True \<and>
   at_position ''color'' ''green'' 0 [(''color'', [(0, ''red'')])] = Inr True \<and>
   at_edge ''color'' ''green'' ''last'' [(''color'', [(0, ''red'')])] = Inr True \<and>
   one_of_positions ''color'' ''green'' [1, 2] [(''color'', [(0, ''red'')])] = Inr True \<and>
   (case middle_position ''color'' ''green'' 3 of
      Inl e \<Rightarrow> False
    | Inr f \<Rightarrow> f [(''color'', [(0, ''red'')])] = Inr True)"
  using open_world_vacuous_truth [of "[(''color'', [(0, ''red'')])]" "''color''" "''red''"
      "''pet''" "''dog''" "''color''" "''green''" 0 "''last''" "[1, 2]" 3]
  by (simp add: absent_def middle_position_def)

section \<open>Properties of puzzle construction\<close>

text \<open>
  Claim C4. The constructor raises \<^verbatim>\<open>ValueError\<close> exactly when some category's list
  does not have \<^verbatim>\<open>num_positions\<close> entries; otherwise it returns the puzzle, with no
  constraints yet. The error is the constructor's own result, so no puzzle exists on
  which \<^verbatim>\<open>solve\<close> could be called.
\<close>

theorem construction_validates_lengths:
  "(ZebraPuzzle n cats = Inl ValueError \<longleftrightarrow> (\<exists>(c, vs) \<in> set cats. int (length vs) \<noteq> n)) \<and>
   (ZebraPuzzle n cats = Inr \<lparr>num_positions = n, categories = cats, constraints = []\<rparr>
      \<longleftrightarrow> (\<forall>(c, vs) \<in> set cats. int (length vs) = n))"
  by (auto simp: ZebraPuzzle_def list_ex_iff)

text \<open>Four colours for three positions are refused, three are accepted.\<close>

theorem construction_validates_lengths_witness:
  "ZebraPuzzle 3 [(''color'', [''red'', ''green'', ''ivory'', ''blue''])] = Inl ValueError \<and>
   ZebraPuzzle 3 [(''color'', [''red'', ''green'', ''ivory''])] =
     Inr \<lparr>num_positions = 3, categories = [(''color'', [''red'', ''green'', ''ivory''])],
          constraints = []\<rparr>"
  using construction_validates_lengths [of 3 "[(''color'', [''red'', ''green'', ''ivory'', ''blue''])]"]
    construction_validates_lengths [of 3 "[(''color'', [''red'', ''green'', ''ivory''])]"]
  by simp

section \<open>The edge constraint\<close>

text \<open>
  Claim C5 says that an edge designator other than first, last or either is refused by
  the factory call. In the source the factory returns a predicate for every designator,
  and the predicate answers true as long as the value is absent; \<^verbatim>\<open>ValueError\<close> is
  raised only when the predicate meets an assignment that holds the value.
\<close>

theorem at_edge_invalid_edge_raises_late:
  "edge \<noteq> ''first'' \<and> edge \<noteq> ''last'' \<and> edge \<noteq> ''either'' \<longrightarrow>
     at_edge c v edge a = (if absent a c v then Inr True else Inl ValueError)"
  by (cases "position_of (the (map_of a c)) v")
     (auto simp: at_edge_def absent_def position_of_None_iff [symmetric] split: option.splits)

text \<open>The designator \<^verbatim>\<open>'middle'\<close>, before and after yellow is placed.\<close>

theorem at_edge_invalid_edge_raises_late_witness:
  "at_edge ''color'' ''yellow'' ''middle'' [] = Inr True \<and>
   at_edge ''color'' ''yellow'' ''middle'' [(''color'', [(0, ''red'')])] = Inr True \<and>
   at_edge ''color'' ''yellow'' ''middle'' [(''color'', [(0, ''red''), (1, ''yellow'')])] = Inl ValueError"
  using at_edge_invalid_edge_raises_late [of "''middle''" "''color''" "''yellow''" "[]"]
    at_edge_invalid_edge_raises_late [of "''middle''" "''color''" "''yellow''" "[(''color'', [(0, ''red'')])]"]
    at_edge_invalid_edge_raises_late [of "''middle''" "''color''" "''yellow''"
      "[(''color'', [(0, ''red''), (1, ''yellow'')])]"]
  by (simp add: absent_def)

text \<open>
  Claim C6 as stated fails: in a puzzle of five positions with red at position 0 and
  yellow at position 1, the predicate for yellow at the last position is true, although
  position 1 is not position 4.
\<close>

theorem at_edge_partial_assignment_counterexample:
  "find_position [(''color'', [(0, ''red''), (1, ''yellow'')])] ''color'' ''yellow'' = Some 1 \<and>
   fst ` set [(0::int, ''red''), (1, ''yellow'')] \<subseteq> {0..<5} \<and>
   at_edge ''color'' ''yellow'' ''last'' [(''color'', [(0, ''red''), (1, ''yellow'')])] = Inr True \<and>
   (1::int) \<noteq> 5 - 1"
  by (simp add: find_position_def at_edge_def)

text \<open>
  Claim C6, amended. When the value is assigned at \<open>pos\<close>, the predicate compares
  \<open>pos\<close> with the edges of the positions assigned so far in the category: 0 for first,
  the largest assigned position for last, either of the two for either. This is the edge
  of the puzzle's range \<open>[0, n)\<close> as soon as position \<open>n - 1\<close> of the category is
  assigned, as in every complete assignment.
\<close>

theorem at_edge_relative_to_assigned_positions:
  "map_of a c = Some items \<and> position_of items v = Some pos \<longrightarrow>
     at_edge c v ''first'' a = Inr (pos = 0) \<and>
     at_edge c v ''last'' a = Inr (pos = Max (fst ` set items)) \<and>
     at_edge c v ''either'' a = Inr (pos = 0 \<or> pos = Max (fst ` set items)) \<and>
     (fst ` set items \<subseteq> {0..<n} \<and> n - 1 \<in> fst ` set items \<longrightarrow>
        at_edge c v ''last'' a = Inr (pos = n - 1) \<and>
        at_edge c v ''either'' a = Inr (pos = 0 \<or> pos = n - 1))"
proof (intro impI, elim conjE)
  assume m: "map_of a c = Some items" and p: "position_of items v = Some pos"
  have e: "Max (fst ` set items) = n - 1"
    if "fst ` set items \<subseteq> {0..<n}" "n - 1 \<in> fst ` set items"
  proof (rule Max_eqI)
    show "finite (fst ` set items)" by simp
    show "n - 1 \<in> fst ` set items" by (rule that)
    show "\<And>y. y \<in> fst ` set items \<Longrightarrow> y \<le> n - 1" using that(1) by auto
  qed
  from m p show "at_edge c v ''first'' a = Inr (pos = 0) \<and>
     at_edge c v ''last'' a = Inr (pos = Max (fst ` set items)) \<and>
     at_edge c v ''either'' a = Inr (pos = 0 \<or> pos = Max (fst ` set items)) \<and>
     (fst ` set items \<subseteq> {0..<n} \<and> n - 1 \<in> fst ` set items \<longrightarrow>
        at_edge c v ''last'' a = Inr (pos = n - 1) \<and>
        at_edge c v ''either'' a = Inr (pos = 0 \<or> pos = n - 1))"
    using e by (auto simp: at_edge_def)
qed

text \<open>Red at 0 and yellow at 1, with two positions.\<close>

theorem at_edge_relative_to_assigned_positions_witness:
  "at_edge ''color'' ''yellow'' ''last'' [(''color'', [(0, ''red''), (1, ''yellow'')])] = Inr True \<and>
   at_edge ''color'' ''red'' ''last'' [(''color'', [(0, ''red''), (1, ''yellow'')])] = Inr False \<and>
   at_edge ''color'' ''red'' ''first'' [(''color'', [(0, ''red''), (1, ''yellow'')])] = Inr True \<and>
   at_edge ''color'' ''yellow'' ''either'' [(''color'', [(0, ''red''), (1, ''yellow'')])] = Inr True"
  using at_edge_relative_to_assigned_positions [of "[(''color'', [(0, ''red''), (1, ''yellow'')])]"
      "''color''" "[(0, ''red''), (1, ''yellow'')]" "''yellow''" 1 2]
    at_edge_relative_to_assigned_positions [of "[(''color'', [(0, ''red''), (1, ''yellow'')])]"
      "''color''" "[(0, ''red''), (1, ''yellow'')]" "''red''" 0 2]
  by simp

section \<open>Properties of propagation\<close>

declare propagate_constraints.simps [simp del]
declare backtrack.simps [simp del]

lemma propagate_constraints_None:
  "propagation_pass P d = None \<Longrightarrow> propagate_constraints P d = None"
  by (subst propagate_constraints.simps) simp

lemma propagate_constraints_changed:
  "propagation_pass P d = Some (True, d') \<Longrightarrow>
   propagate_constraints P d = propagate_constraints P d'"
  by (subst propagate_constraints.simps) simp

lemma propagate_constraints_fixpoint:
  "propagation_pass P d = Some (False, d') \<Longrightarrow> propagate_constraints P d = Some d'"
  by (subst propagate_constraints.simps) simp

lemma propagation_pass_unchanged:
  assumes "propagation_pass P d = Some (False, d')"
  shows "d' = d"
  using pass_inv_propagation_pass [OF assms] by (simp add: pass_inv_def)

lemma propagate_constraints_cases:
  assumes "propagate_constraints P d = Some r"
  obtains (fixpoint) "propagation_pass P d = Some (False, d)" "r = d"
  | (changed) d' where "propagation_pass P d = Some (True, d')"
      "propagate_constraints P d' = Some r"
proof (cases "propagation_pass P d")
  case None
  with assms show ?thesis by (simp add: propagate_constraints_None)
next
  case (Some s)
  obtain ch d' where s: "s = (ch, d')" by (cases s)
  show ?thesis
  proof (cases ch)
    case True
    with Some s assms changed show ?thesis
      by (simp add: propagate_constraints_changed)
  next
    case False
    with Some s have p: "propagation_pass P d = Some (False, d')" by simp
    from propagation_pass_unchanged [OF p] propagate_constraints_fixpoint [OF p] assms p
    show ?thesis by (intro fixpoint) simp_all
  qed
qed

text \<open>
  Claim C7. Fixpoint propagation is idempotent: when \<^verbatim>\<open>_propagate_constraints\<close> returns a
  domain map (not the sentinel), running it again on that map returns the same map.
\<close>

theorem propagate_constraints_idempotent:
  "propagate_constraints P d = Some d' \<Longrightarrow> propagate_constraints P d' = Some d'"
proof (induction P d rule: propagate_constraints.induct)
  case (1 P d)
  from "1.prems" show ?case
  proof (cases rule: propagate_constraints_cases)
    case fixpoint
    then show ?thesis by (simp add: propagate_constraints_fixpoint)
  next
    case (changed d1)
    show ?thesis
      by (rule "1.IH" [OF changed(1) refl TrueI changed(2)])
  qed
qed

text \<open>
  With two positions and the pets dog and fox, the map \<^verbatim>\<open>{0: {dog}, 1: {dog, fox}}\<close> is
  propagated to \<^verbatim>\<open>{0: {dog}, 1: {fox}}\<close>, which a second run leaves as it is.
\<close>

theorem propagate_constraints_idempotent_witness:
  "propagate_constraints
     \<lparr>num_positions = 2, categories = [(''pet'', [''dog'', ''fox''])], constraints = []\<rparr>
     (\<lambda>category pos. if pos = 0 then {''dog''} else {''dog'', ''fox''}) \<noteq> None \<and>
   the (propagate_constraints
     \<lparr>num_positions = 2, categories = [(''pet'', [''dog'', ''fox''])], constraints = []\<rparr>
     (\<lambda>category pos. if pos = 0 then {''dog''} else {''dog'', ''fox''})) ''pet'' 1 = {''fox''} \<and>
   propagate_constraints
     \<lparr>num_positions = 2, categories = [(''pet'', [''dog'', ''fox''])], constraints = []\<rparr>
     (the (propagate_constraints
       \<lparr>num_positions = 2, categories = [(''pet'', [''dog'', ''fox''])], constraints = []\<rparr>
       (\<lambda>category pos. if pos = 0 then {''dog''} else {''dog'', ''fox''}))) =
   propagate_constraints
     \<lparr>num_positions = 2, categories = [(''pet'', [''dog'', ''fox''])], constraints = []\<rparr>
     (\<lambda>category pos. if pos = 0 then {''dog''} else {''dog'', ''fox''})"
  (is "?p \<noteq> None \<and> ?v \<and> ?q")
proof -
  have n: "?p \<noteq> None" by code_simp
  have v: ?v by code_simp
  from n obtain r where r: "?p = Some r" by auto
  from propagate_constraints_idempotent [OF r] r have ?q by simp
  with n v show ?thesis by blast
qed

end
